theory Spec2Isabelle
  imports Main "HOL-Library.Sublist"
begin

section \<open>Python string primitives used by \<^verbatim>\<open>packg/import_from_source.py\<close>\<close>

text \<open>
  Module names are Python \<^verbatim>\<open>str\<close> values, modelled as \<^typ>\<open>string\<close>. The only
  characters the code inspects (\<^verbatim>\<open>.\<close>, \<^verbatim>\<open>_\<close>, \<^verbatim>\<open>*\<close>) are ASCII, so splitting, joining
  and prefix tests agree on code points and on bytes.
\<close>

text \<open>\<^verbatim>\<open>s.startswith(p)\<close> and \<^verbatim>\<open>s.endswith(p)\<close>.\<close>

definition startswith :: "string \<Rightarrow> string \<Rightarrow> bool" where
  "startswith s p = prefix p s"

definition endswith :: "string \<Rightarrow> string \<Rightarrow> bool" where
  "endswith s p = suffix p s"

text \<open>
  \<^verbatim>\<open>s.split(".")\<close>: the pieces between the separators; never the empty list
  (\<^verbatim>\<open>"".split(".") == [""]\<close>), and empty pieces are kept.
\<close>

fun split_dot :: "string \<Rightarrow> string list" where
  "split_dot [] = [[]]"
| "split_dot (x # xs) =
     (if x = CHR ''.'' then [] # split_dot xs
      else (case split_dot xs of
              [] \<Rightarrow> [[x]]
            | y # ys \<Rightarrow> (x # y) # ys))"

text \<open>\<^verbatim>\<open>".".join(xs)\<close>.\<close>

fun join_dot :: "string list \<Rightarrow> string" where
  "join_dot [] = []"
| "join_dot [x] = x"
| "join_dot (x # y # ys) = x @ CHR ''.'' # join_dot (y # ys)"

section \<open>The checker's canonical import path\<close>

text \<open>
  \<^verbatim>\<open>_ImportFromSourceChecker._get_module_should_import\<close>. The first argument is
  \<^verbatim>\<open>self._module\<close>. The \<^verbatim>\<open>for\<close> loop is \<open>should_import_loop\<close>: its second argument is
  the list \<^verbatim>\<open>result\<close> built so far, its third the components not yet visited;
  \<^verbatim>\<open>break\<close> returns \<^verbatim>\<open>result\<close> as it stands.
\<close>

fun should_import_loop :: "string \<Rightarrow> string list \<Rightarrow> string list \<Rightarrow> string list" where
  "should_import_loop self_module result [] = result"
| "should_import_loop self_module result (component # rest) =
     (if startswith component ''_'' \<and> \<not> startswith self_module (join_dot result)
      then result
      else should_import_loop self_module (result @ [component]) rest)"

definition get_module_should_import :: "string \<Rightarrow> string \<Rightarrow> string" where
  "get_module_should_import self_module module_to_import =
     join_dot (should_import_loop self_module [] (split_dot module_to_import))"

subsection \<open>The canonical path as the specification words it\<close>

text \<open>
  Component \<open>i\<close> of a defining module stops the accumulation when it starts with an
  underscore and the working module does not start with the dotted join of the
  components before it.
\<close>

definition stops_at :: "string \<Rightarrow> string list \<Rightarrow> nat \<Rightarrow> bool" where
  "stops_at working comps i =
     (startswith (comps ! i) ''_'' \<and> \<not> startswith working (join_dot (take i comps)))"

text \<open>The index of the first stopping component, or the number of components.\<close>

definition first_stop :: "string \<Rightarrow> string list \<Rightarrow> nat" where
  "first_stop working comps =
     length (takeWhile (\<lambda>i. \<not> stops_at working comps i) [0..<length comps])"

definition canonical_path_spec :: "string \<Rightarrow> string \<Rightarrow> string" where
  "canonical_path_spec working defining =
     join_dot (take (first_stop working (split_dot defining)) (split_dot defining))"


section \<open>The host environment\<close>

text \<open>
  Exceptions are values. \<open>ModuleNotFoundError\<close> carries the name the import system
  reports as missing, which need not be the name passed to \<^verbatim>\<open>import_module\<close>;
  \<open>OtherError\<close> stands for every exception class the code does not name.
\<close>

datatype error =
    ValueError
  | AssertionError
  | AttributeError
  | IndexError
  | ModuleNotFoundError string
  | OtherError string

text \<open>\<^verbatim>\<open>importlib.machinery.ModuleSpec\<close>: the code reads \<^verbatim>\<open>origin\<close> only.\<close>

record module_spec =
  origin :: "string option"

text \<open>\<^verbatim>\<open>pkgutil.ModuleInfo\<close>, as \<^verbatim>\<open>iter_modules\<close> yields it.\<close>

record module_info =
  child_name :: string
  child_ispkg :: bool

text \<open>
  A Python object as the checker sees it: \<^verbatim>\<open>isinstance(attr, type)\<close>,
  \<^verbatim>\<open>callable(attr)\<close>, the read of \<^verbatim>\<open>attr.__module__\<close> and \<^verbatim>\<open>getattr(obj, name)\<close>.
  \<open>obj_module\<close> is \<open>Inl e\<close> when the read raises \<open>e\<close> or yields a value whose
  \<^verbatim>\<open>.split\<close> raises \<open>e\<close> (\<open>AttributeError\<close> for \<^verbatim>\<open>None\<close>): nothing happens between the
  read and the split. \<open>getattr\<close> is a function of the name, so a module-level
  \<^verbatim>\<open>__getattr__\<close> is covered.
\<close>

datatype py_object =
  PyObject (is_type: bool) (is_callable: bool) (obj_module: "error + string")
    (getattr: "string \<Rightarrow> error + py_object")

text \<open>The built-in \<^verbatim>\<open>hasattr\<close>: only \<open>AttributeError\<close> means absent.\<close>

definition hasattr :: "py_object \<Rightarrow> string \<Rightarrow> error + bool" where
  "hasattr obj attr_name =
     (case getattr obj attr_name of
        Inl e \<Rightarrow> (if e = AttributeError then Inr False else Inl e)
      | Inr _ \<Rightarrow> Inr True)"

text \<open>
  The facilities the code calls: \<^verbatim>\<open>importlib.util.find_spec\<close>, \<^verbatim>\<open>os.path.dirname\<close>,
  \<^verbatim>\<open>pkgutil.iter_modules\<close> on one directory, and \<^verbatim>\<open>importlib.import_module\<close>. The host
  is one snapshot: a call with the same argument gives the same answer.
\<close>

record host =
  find_spec :: "string \<Rightarrow> error + module_spec option"
  dirname :: "string \<Rightarrow> string"
  iter_modules :: "string \<Rightarrow> module_info list"
  import_module :: "string \<Rightarrow> error + py_object"

section \<open>The module enumerator\<close>

text \<open>\<^verbatim>\<open>_is_test_module\<close>.\<close>

definition is_test_module :: "string \<Rightarrow> bool" where
  "is_test_module module_name =
     (let components = split_dot module_name
      in length components \<ge> 2 \<and> components ! 1 = ''tests'')"

text \<open>\<^verbatim>\<open>_is_package\<close>.\<close>

definition is_package :: "module_spec \<Rightarrow> bool" where
  "is_package spec =
     (case origin spec of None \<Rightarrow> False | Some og \<Rightarrow> endswith og ''__init__.py'')"

text \<open>
  A generator run to its end: the names it yielded, in order, and how it ended.
  \<open>OutOfFuel\<close> is the model's own: the recursion went deeper than the fuel allows.
\<close>

datatype gen_end = Exhausted | Aborted error | OutOfFuel

type_synonym generated = "string list \<times> gen_end"

text \<open>
  Generators consumed one after the other, as the \<^verbatim>\<open>for\<close> loop with \<^verbatim>\<open>yield\<close> and
  \<^verbatim>\<open>yield from\<close> does: the first that does not end normally ends the whole.
\<close>

fun chain :: "generated list \<Rightarrow> generated" where
  "chain [] = ([], Exhausted)"
| "chain ((ys, e) # gs) =
     (case e of
        Exhausted \<Rightarrow> (ys @ fst (chain gs), snd (chain gs))
      | Aborted err \<Rightarrow> (ys, Aborted err)
      | OutOfFuel \<Rightarrow> (ys, OutOfFuel))"

text \<open>
  \<^verbatim>\<open>_recurse_modules\<close>. The first argument bounds the depth of the recursion; the
  generator is run to its end.
\<close>

fun recurse_modules :: "nat \<Rightarrow> host \<Rightarrow> string \<Rightarrow> bool \<Rightarrow> bool \<Rightarrow> generated" where
  "recurse_modules 0 h module_name ignore_tests packages_only = ([], OutOfFuel)"
| "recurse_modules (Suc fuel) h module_name ignore_tests packages_only =
     (if ignore_tests \<and> is_test_module module_name then ([], Exhausted)
      else
        (case find_spec h module_name of
           Inl e \<Rightarrow> ([], Aborted e)
         | Inr None \<Rightarrow> ([], Exhausted)
         | Inr (Some spec) \<Rightarrow>
             (case origin spec of
                None \<Rightarrow> ([], Exhausted)
              | Some og \<Rightarrow>
                  chain
                    ((if \<not> (packages_only \<and> \<not> is_package spec) then [module_name] else [],
                      Exhausted) #
                     map (\<lambda>child.
                            if child_ispkg child then
                              recurse_modules fuel h (module_name @ ''.'' @ child_name child)
                                ignore_tests packages_only
                            else if \<not> packages_only then
                              ([module_name @ ''.'' @ child_name child], Exhausted)
                            else ([], Exhausted))
                         (iter_modules h (dirname h og))))))"

text \<open>
  The package-to-package paths of the host: from a module whose spec resolves with an
  origin, to a child that the directory scan reports as a package. With \<open>ignore_tests\<close>
  set, a path does not pass through a test module; without it, every such path counts.
\<close>

inductive pkg_path :: "host \<Rightarrow> bool \<Rightarrow> string \<Rightarrow> string \<Rightarrow> bool"
  for h :: host and ignore_tests :: bool where
  here: "\<not> (ignore_tests \<and> is_test_module m) \<Longrightarrow> pkg_path h ignore_tests m m"
| below: "\<not> (ignore_tests \<and> is_test_module m) \<Longrightarrow>
          find_spec h m = Inr (Some spec) \<Longrightarrow> origin spec = Some og \<Longrightarrow>
          child \<in> set (iter_modules h (dirname h og)) \<Longrightarrow> child_ispkg child \<Longrightarrow>
          pkg_path h ignore_tests (m @ ''.'' @ child_name child) n \<Longrightarrow>
          pkg_path h ignore_tests m n"

text \<open>
  A bound on the depth of the package tree below a module: every package child has a
  bound one smaller.
\<close>

inductive bounded_depth :: "host \<Rightarrow> string \<Rightarrow> nat \<Rightarrow> bool" for h :: host where
  step: "(\<And>spec og child. find_spec h m = Inr (Some spec) \<Longrightarrow> origin spec = Some og \<Longrightarrow>
            child \<in> set (iter_modules h (dirname h og)) \<Longrightarrow> child_ispkg child \<Longrightarrow>
            bounded_depth h (m @ ''.'' @ child_name child) d) \<Longrightarrow>
         bounded_depth h m (Suc d)"

section \<open>The import checker\<close>

text \<open>The state \<^verbatim>\<open>_ImportFromSourceChecker.__init__\<close> sets up.\<close>

record checker =
  self_module :: string
  top_level_module :: string
  module_list_to_ignore_not_found :: "string list option"

definition init_checker :: "host \<Rightarrow> string \<Rightarrow> string list option \<Rightarrow> error + checker" where
  "init_checker h module_arg ignore_list =
     (case find_spec h module_arg of
        Inl e \<Rightarrow> Inl e
      | Inr found \<Rightarrow>
          (let is_pkg =
                 (case found of
                    None \<Rightarrow> False
                  | Some spec \<Rightarrow>
                      (case origin spec of
                         None \<Rightarrow> False
                       | Some og \<Rightarrow> endswith og ''__init__.py''));
               m = (if is_pkg then module_arg else join_dot (butlast (split_dot module_arg)))
           in (case split_dot m of
                 [] \<Rightarrow> Inl IndexError
               | first_component # _ \<Rightarrow>
                   Inr \<lparr>self_module = m, top_level_module = first_component,
                        module_list_to_ignore_not_found = ignore_list\<rparr>)))"

text \<open>\<^verbatim>\<open>ast.alias\<close> and \<^verbatim>\<open>ast.ImportFrom\<close>.\<close>

record import_alias =
  alias_name :: string
  alias_asname :: "string option"

record import_from =
  node_module :: "string option"
  node_names :: "import_alias list"
  node_level :: int

text \<open>
  What one visit does: how it ended, the warnings it logged (alias name, module
  imported from, module recommended) and the names it passed to \<^verbatim>\<open>import_module\<close>, in
  order.
\<close>

datatype outcome = Returned | Raised error

type_synonym warning = "string \<times> string \<times> string"

record visit_result =
  outcome :: outcome
  warnings :: "warning list"
  imported :: "string list"

definition finished :: visit_result where
  "finished = \<lparr>outcome = Returned, warnings = [], imported = []\<rparr>"

definition raised :: "error \<Rightarrow> visit_result" where
  "raised e = \<lparr>outcome = Raised e, warnings = [], imported = []\<rparr>"

definition importing :: "string \<Rightarrow> visit_result" where
  "importing module_name = \<lparr>outcome = Returned, warnings = [], imported = [module_name]\<rparr>"

text \<open>Sequential composition: what follows runs only after a normal end.\<close>

definition and_then :: "visit_result \<Rightarrow> visit_result \<Rightarrow> visit_result" where
  "and_then r1 r2 =
     (case outcome r1 of
        Raised e \<Rightarrow> r1
      | Returned \<Rightarrow>
          \<lparr>outcome = outcome r2, warnings = warnings r1 @ warnings r2,
           imported = imported r1 @ imported r2\<rparr>)"

text \<open>Lines 107 to 117 of the source: the module the statement imports from.\<close>

definition resolve_module_to_import :: "checker \<Rightarrow> import_from \<Rightarrow> error + string" where
  "resolve_module_to_import c node =
     (if node_level node = 0 then
        (case node_module node of
           None \<Rightarrow> Inl AssertionError
         | Some m \<Rightarrow> Inr m)
      else
        (case node_module node of
           None \<Rightarrow> Inr (self_module c)
         | Some m \<Rightarrow> Inr (self_module c @ ''.'' @ m)))"

text \<open>
  The loop over the ignore-list in the \<^verbatim>\<open>except ModuleNotFoundError\<close> handler: true
  when it reaches the \<^verbatim>\<open>return\<close>.
\<close>

fun ignore_not_found :: "string \<Rightarrow> string list \<Rightarrow> bool" where
  "ignore_not_found module_to_import [] = False"
| "ignore_not_found module_to_import (module_to_ignore # rest) =
     (if startswith module_to_import module_to_ignore then True
      else ignore_not_found module_to_import rest)"

text \<open>Lines 143 to 162: the provenance check of one resolved attribute.\<close>

definition check_provenance :: "checker \<Rightarrow> string \<Rightarrow> string \<Rightarrow> py_object \<Rightarrow> visit_result" where
  "check_provenance c module_to_import imported_name attr =
     (if is_type attr \<or> is_callable attr then
        (case obj_module attr of
           Inl e \<Rightarrow> raised e
         | Inr attribute_module \<Rightarrow>
             (let should_import_from = get_module_should_import (self_module c) attribute_module
              in if module_to_import \<noteq> should_import_from
                 then \<lparr>outcome = Returned,
                       warnings = [(imported_name, module_to_import, should_import_from)],
                       imported = []\<rparr>
                 else finished))
      else finished)"

text \<open>The body of the loop over \<^verbatim>\<open>node.names\<close>, lines 135 to 162.\<close>

definition visit_alias :: "host \<Rightarrow> checker \<Rightarrow> string \<Rightarrow> py_object \<Rightarrow> import_alias \<Rightarrow> visit_result" where
  "visit_alias h c module_to_import loaded a =
     (case hasattr loaded (alias_name a) of
        Inl e \<Rightarrow> raised e
      | Inr present \<Rightarrow>
          (if \<not> present then
             (if alias_name a = ''*'' then finished
              else
                (case import_module h (module_to_import @ ''.'' @ alias_name a) of
                   Inl e \<Rightarrow>
                     \<lparr>outcome = Raised e, warnings = [],
                      imported = [module_to_import @ ''.'' @ alias_name a]\<rparr>
                 | Inr attr \<Rightarrow>
                     and_then (importing (module_to_import @ ''.'' @ alias_name a))
                       (check_provenance c module_to_import (alias_name a) attr)))
           else
             (case getattr loaded (alias_name a) of
                Inl e \<Rightarrow> raised e
              | Inr attr \<Rightarrow> check_provenance c module_to_import (alias_name a) attr)))"

fun visit_names :: "host \<Rightarrow> checker \<Rightarrow> string \<Rightarrow> py_object \<Rightarrow> import_alias list \<Rightarrow> visit_result" where
  "visit_names h c module_to_import loaded [] = finished"
| "visit_names h c module_to_import loaded (a # rest) =
     and_then (visit_alias h c module_to_import loaded a)
       (visit_names h c module_to_import loaded rest)"

text \<open>\<^verbatim>\<open>_ImportFromSourceChecker.visit_ImportFrom\<close>.\<close>

definition visit_ImportFrom :: "host \<Rightarrow> checker \<Rightarrow> import_from \<Rightarrow> visit_result" where
  "visit_ImportFrom h c node =
     (if node_level node \<ge> 2 then raised ValueError
      else
        (case resolve_module_to_import c node of
           Inl e \<Rightarrow> raised e
         | Inr module_to_import \<Rightarrow>
             (if \<not> startswith module_to_import (top_level_module c) then finished
              else
                (case import_module h module_to_import of
                   Inl e \<Rightarrow>
                     (case e of
                        ModuleNotFoundError missing \<Rightarrow>
                          (if (case module_list_to_ignore_not_found c of
                                 None \<Rightarrow> False
                               | Some ignore_list \<Rightarrow>
                                   ignore_not_found module_to_import ignore_list)
                           then importing module_to_import
                           else \<lparr>outcome = Raised e, warnings = [],
                                 imported = [module_to_import]\<rparr>)
                      | _ \<Rightarrow>
                          \<lparr>outcome = Raised e, warnings = [], imported = [module_to_import]\<rparr>)
                 | Inr loaded \<Rightarrow>
                     and_then (importing module_to_import)
                       (visit_names h c module_to_import loaded (node_names node))))))"

section \<open>Concrete objects, hosts and statements\<close>

text \<open>The inputs at which the theorems below are evaluated.\<close>

definition no_attrs :: "string \<Rightarrow> error + py_object" where
  "no_attrs attr_name = Inl AttributeError"

definition class_defined_in :: "string \<Rightarrow> py_object" where
  "class_defined_in defining = PyObject True True (Inr defining) no_attrs"

definition module_object :: "(string \<times> py_object) list \<Rightarrow> py_object" where
  "module_object attrs =
     PyObject False False (Inl AttributeError)
       (\<lambda>attr_name. case map_of attrs attr_name of
                      None \<Rightarrow> Inl AttributeError
                    | Some v \<Rightarrow> Inr v)"

definition example_host :: host where
  "example_host =
     \<lparr>find_spec = (\<lambda>n.
        if n = ''pkg'' then Inr (Some \<lparr>origin = Some ''/src/pkg/__init__.py''\<rparr>)
        else if n = ''pkg.a'' then Inr (Some \<lparr>origin = Some ''/src/pkg/a.py''\<rparr>)
        else if n = ''tool'' then Inr (Some \<lparr>origin = Some ''/src/tool.py''\<rparr>)
        else Inr None),
      dirname = (\<lambda>p. if p = ''/src/pkg/__init__.py'' then ''/src/pkg'' else ''/src''),
      iter_modules = (\<lambda>d. []),
      import_module = (\<lambda>n.
        if n = ''pkg.mod'' then Inr (module_object [(''Klass'', class_defined_in ''pkg.mod'')])
        else if n = ''pkgextra.mod'' then Inr (module_object [])
        else if n = ''os.path'' then
          Inr (module_object [(''join'', PyObject False True (Inr ''posixpath'') no_attrs)])
        else if n = ''pkg.star'' then
          Inr (module_object [(''*'', class_defined_in ''pkg.other'')])
        else if n = ''pkg.lazy'' then
          Inr (PyObject False False (Inl AttributeError)
                 (\<lambda>attr_name. Inl (ModuleNotFoundError (''pkg.lazy.'' @ attr_name))))
        else if n = ''pkg.b._c'' then Inr (module_object [(''Klass'', class_defined_in ''pkg.b._c'')])
        else Inl (ModuleNotFoundError n))\<rparr>"

definition example_checker :: "string list option \<Rightarrow> checker" where
  "example_checker ignore_list =
     \<lparr>self_module = ''pkg.a'', top_level_module = ''pkg'',
      module_list_to_ignore_not_found = ignore_list\<rparr>"

definition import_names :: "int \<Rightarrow> string option \<Rightarrow> string list \<Rightarrow> import_from" where
  "import_names lvl source names =
     \<lparr>node_module = source,
      node_names = map (\<lambda>n. \<lparr>alias_name = n, alias_asname = None\<rparr>) names,
      node_level = lvl\<rparr>"

definition package_tree_host :: host where
  "package_tree_host =
     \<lparr>find_spec = (\<lambda>n.
        if n = ''pkg'' then Inr (Some \<lparr>origin = Some ''/src/pkg/__init__.py''\<rparr>)
        else if n = ''pkg.sub'' then Inr (Some \<lparr>origin = Some ''/src/pkg/sub/__init__.py''\<rparr>)
        else if n = ''pkg.sub.deep'' then
          Inr (Some \<lparr>origin = Some ''/src/pkg/sub/deep/__init__.py''\<rparr>)
        else Inr None),
      dirname = (\<lambda>p.
        if p = ''/src/pkg/__init__.py'' then ''/src/pkg''
        else if p = ''/src/pkg/sub/__init__.py'' then ''/src/pkg/sub''
        else if p = ''/src/pkg/sub/deep/__init__.py'' then ''/src/pkg/sub/deep''
        else ''/src''),
      iter_modules = (\<lambda>d.
        if d = ''/src/pkg'' then
          [\<lparr>child_name = ''mod'', child_ispkg = False\<rparr>,
           \<lparr>child_name = ''tests'', child_ispkg = False\<rparr>,
           \<lparr>child_name = ''sub'', child_ispkg = True\<rparr>]
        else if d = ''/src/pkg/sub'' then
          [\<lparr>child_name = ''leaf'', child_ispkg = False\<rparr>,
           \<lparr>child_name = ''deep'', child_ispkg = True\<rparr>]
        else []),
      import_module = (\<lambda>n. Inl (ModuleNotFoundError n))\<rparr>"

section \<open>Facts about splitting and joining\<close>





lemma split_dot_single: "CHR ''.'' \<notin> set x \<Longrightarrow> split_dot x = [x]"
  by (induction x) auto



section \<open>The loop computes the prefix up to the first stopping component\<close>

lemma should_import_loop_take:
  "should_import_loop m result rest =
     result @ take (length (takeWhile (\<lambda>i. \<not> stops_at m (result @ rest) i)
                              [length result..<length result + length rest])) rest"
proof (induction rest arbitrary: result)
  case Nil
  show ?case by simp
next
  case (Cons c rest)
  have here: "stops_at m (result @ c # rest) (length result) =
                (startswith c ''_'' \<and> \<not> startswith m (join_dot result))"
    by (simp add: stops_at_def)
  have upt: "[length result..<length result + length (c # rest)] =
               length result # [Suc (length result)..<Suc (length result) + length rest]"
    by (subst upt_rec) simp
  show ?case
  proof (cases "startswith c ''_'' \<and> \<not> startswith m (join_dot result)")
    case True
    then show ?thesis
      unfolding upt using here by simp
  next
    case False
    have "should_import_loop m result (c # rest) = should_import_loop m (result @ [c]) rest"
      using False by auto
    also have "\<dots> = (result @ [c]) @ take (length (takeWhile
                 (\<lambda>i. \<not> stops_at m ((result @ [c]) @ rest) i)
                 [length (result @ [c])..<length (result @ [c]) + length rest])) rest"
      by (rule Cons.IH)
    finally show ?thesis
      unfolding upt using here False by simp
  qed
qed

lemma should_import_loop_first_stop:
  "should_import_loop m [] comps = take (first_stop m comps) comps"
  using should_import_loop_take [of m "[]" comps] by (simp add: first_stop_def)








section \<open>Facts about the visit\<close>

lemma ignore_not_found_iff:
  "ignore_not_found m ignore_list = (\<exists>entry \<in> set ignore_list. prefix entry m)"
  by (induction ignore_list) (auto simp: startswith_def)

lemma imported_after_importing:
  "imported (and_then (importing m) r) = m # imported r"
  by (simp add: and_then_def importing_def)

lemma visit_imports_first:
  assumes "node_level node < 2" "resolve_module_to_import c node = Inr mti"
    "startswith mti (top_level_module c)"
  shows "\<exists>rest. imported (visit_ImportFrom h c node) = mti # rest"
  using assms
  by (auto simp: visit_ImportFrom_def and_then_def importing_def
      split: sum.splits error.splits option.splits)

lemma and_then_finished_left: "and_then finished r = r"
  by (cases r) (simp add: and_then_def finished_def)



lemma visit_alias_wildcard_absent:
  "hasattr loaded ''*'' = Inr False \<Longrightarrow> alias_name a = ''*'' \<Longrightarrow>
   visit_alias h c mti loaded a = finished"
  by (simp add: visit_alias_def)

lemma visit_names_without_wildcards:
  "hasattr loaded ''*'' = Inr False \<Longrightarrow>
   visit_names h c mti loaded names =
     visit_names h c mti loaded (filter (\<lambda>a. alias_name a \<noteq> ''*'') names)"
  by (induction names) (simp_all add: visit_alias_wildcard_absent and_then_finished_left)

lemma resolve_ignores_names:
  "resolve_module_to_import c (node\<lparr>node_names := names\<rparr>) = resolve_module_to_import c node"
  by (simp add: resolve_module_to_import_def)


section \<open>Facts about the enumerator\<close>

lemma chain_yield:
  "y \<in> set (fst (chain gs)) \<Longrightarrow> \<exists>g \<in> set gs. y \<in> set (fst g)"
  by (induction gs rule: chain.induct) (auto split: gen_end.splits)

lemma chain_Exhausted:
  "snd (chain gs) = Exhausted \<Longrightarrow> g \<in> set gs \<Longrightarrow>
   snd g = Exhausted \<and> set (fst g) \<subseteq> set (fst (chain gs))"
  by (induction gs rule: chain.induct) (auto split: gen_end.splits)

lemma chain_not_OutOfFuel:
  "\<forall>g \<in> set gs. snd g \<noteq> OutOfFuel \<Longrightarrow> snd (chain gs) \<noteq> OutOfFuel"
  by (induction gs rule: chain.induct) (auto split: gen_end.splits)

lemma chain_all_Exhausted:
  "\<forall>g \<in> set gs. snd g = Exhausted \<Longrightarrow> snd (chain gs) = Exhausted"
  by (induction gs rule: chain.induct) (auto split: gen_end.splits)

lemma pkg_path_not_test: "pkg_path h True m n \<Longrightarrow> \<not> is_test_module n"
  by (induction rule: pkg_path.induct) auto

lemma packages_only_yields_packages:
  "n \<in> set (fst (recurse_modules fuel h root ignore_tests True)) \<Longrightarrow>
   (\<exists>spec. find_spec h n = Inr (Some spec) \<and> is_package spec) \<and> pkg_path h ignore_tests root n"
proof (induction fuel arbitrary: root)
  case 0
  then show ?case by simp
next
  case (Suc fuel)
  from Suc.prems obtain spec og where
    nontest: "\<not> (ignore_tests \<and> is_test_module root)"
    and spec: "find_spec h root = Inr (Some spec)" "origin spec = Some og"
    and mem: "n \<in> set (fst (chain
         ((if is_package spec then [root] else [], Exhausted) #
          map (\<lambda>child.
                 if child_ispkg child then
                   recurse_modules fuel h (root @ ''.'' @ child_name child) ignore_tests True
                 else ([], Exhausted))
              (iter_modules h (dirname h og)))))"
    by (auto split: if_splits sum.splits option.splits cong: if_cong)
  from chain_yield [OF mem] consider
    (root) "is_package spec" "n = root"
    | (child) child where "child \<in> set (iter_modules h (dirname h og))" "child_ispkg child"
        "n \<in> set (fst (recurse_modules fuel h (root @ ''.'' @ child_name child)
                          ignore_tests True))"
    by (auto split: if_splits)
  then show ?case
  proof cases
    case root
    with spec nontest show ?thesis by (auto intro: pkg_path.here)
  next
    case child
    from Suc.IH [OF child(3)] spec child(1,2) nontest show ?thesis
      by (auto intro: pkg_path.below)
  qed
qed

lemma packages_only_yields_every_package:
  assumes "pkg_path h ignore_tests root n"
    and "snd (recurse_modules fuel h root ignore_tests True) = Exhausted"
    and "find_spec h n = Inr (Some spec)" "is_package spec"
  shows "n \<in> set (fst (recurse_modules fuel h root ignore_tests True))"
  using assms
proof (induction arbitrary: fuel rule: pkg_path.induct)
  case (here m)
  then obtain k where "fuel = Suc k" by (cases fuel) auto
  with here show ?case
    by (auto simp: is_package_def split: option.splits gen_end.splits)
next
  case (below m mspec og child n)
  then obtain k where k: "fuel = Suc k" by (cases fuel) auto
  let ?gs = "(if is_package mspec then [m] else [], Exhausted) #
          map (\<lambda>child.
                 if child_ispkg child then
                   recurse_modules k h (m @ ''.'' @ child_name child) ignore_tests True
                 else ([], Exhausted))
              (iter_modules h (dirname h og))"
  have run: "recurse_modules fuel h m ignore_tests True = chain ?gs"
    using k below.hyps(1,2,3) by (auto cong: if_cong)
  have "recurse_modules k h (m @ ''.'' @ child_name child) ignore_tests True \<in> set ?gs"
    using below.hyps(4,5) by force
  with chain_Exhausted [of ?gs] below.prems(1) run
  have sub: "snd (recurse_modules k h (m @ ''.'' @ child_name child) ignore_tests True) = Exhausted"
    "set (fst (recurse_modules k h (m @ ''.'' @ child_name child) ignore_tests True))
       \<subseteq> set (fst (recurse_modules fuel h m ignore_tests True))"
    by auto
  from below.IH [OF sub(1) below.prems(2,3)] sub(2) show ?case by blast
qed

lemma recurse_modules_enough_fuel:
  "bounded_depth h m d \<Longrightarrow>
   snd (recurse_modules d h m ignore_tests packages_only) \<noteq> OutOfFuel"
proof (induction rule: bounded_depth.induct)
  case (step m d)
  show ?case
  proof (cases "find_spec h m")
    case (Inl e)
    then show ?thesis by simp
  next
    case (Inr found)
    show ?thesis
    proof (cases found)
      case None
      with Inr show ?thesis by simp
    next
      case (Some spec)
      show ?thesis
      proof (cases "origin spec")
        case None
        with Inr Some show ?thesis by simp
      next
        case (Some og)
        have "snd (chain
          ((if \<not> (packages_only \<and> \<not> is_package spec) then [m] else [], Exhausted) #
           map (\<lambda>child.
                  if child_ispkg child then
                    recurse_modules d h (m @ ''.'' @ child_name child)
                      ignore_tests packages_only
                  else if \<not> packages_only then
                    ([m @ ''.'' @ child_name child], Exhausted)
                  else ([], Exhausted))
               (iter_modules h (dirname h og)))) \<noteq> OutOfFuel"
        proof (rule chain_not_OutOfFuel, rule ballI)
          fix g
          assume "g \<in> set ((if \<not> (packages_only \<and> \<not> is_package spec) then [m] else [], Exhausted) #
           map (\<lambda>child.
                  if child_ispkg child then
                    recurse_modules d h (m @ ''.'' @ child_name child)
                      ignore_tests packages_only
                  else if \<not> packages_only then
                    ([m @ ''.'' @ child_name child], Exhausted)
                  else ([], Exhausted))
               (iter_modules h (dirname h og)))"
          then consider "snd g = Exhausted"
            | child where "child \<in> set (iter_modules h (dirname h og))" "child_ispkg child"
                "g = recurse_modules d h (m @ ''.'' @ child_name child) ignore_tests packages_only"
            by (auto split: if_splits)
          then show "snd g \<noteq> OutOfFuel"
          proof cases
            case 1
            then show ?thesis by simp
          next
            case 2
            with step.IH [OF Inr [unfolded \<open>found = Some spec\<close>] Some] show ?thesis
              by simp
          qed
        qed
        with Inr \<open>found = Some spec\<close> Some show ?thesis by simp
      qed
    qed
  qed
qed

lemma bounded_depth_Suc: "bounded_depth h m d \<Longrightarrow> bounded_depth h m (Suc d)"
proof (induction rule: bounded_depth.induct)
  case (step m d)
  show ?case
    by (rule bounded_depth.step) (rule step.IH)
qed

lemma recurse_modules_ends_normally:
  "bounded_depth h m d \<Longrightarrow>
   (\<And>n. pkg_path h ignore_tests m n \<Longrightarrow> \<exists>found. find_spec h n = Inr found) \<Longrightarrow>
   snd (recurse_modules d h m ignore_tests packages_only) = Exhausted"
proof (induction rule: bounded_depth.induct)
  case (step m d)
  show ?case
  proof (cases "ignore_tests \<and> is_test_module m")
    case True
    then show ?thesis by simp
  next
    case False
    then have here: "pkg_path h ignore_tests m m"
      by (rule pkg_path.here)
    then obtain found where found: "find_spec h m = Inr found"
      using step.prems by blast
    show ?thesis
    proof (cases found)
      case None
      with found False show ?thesis by simp
    next
      case (Some spec)
      show ?thesis
      proof (cases "origin spec")
        case None
        with found Some False show ?thesis by simp
      next
        case origin: (Some og)
        have "snd (chain
          ((if \<not> (packages_only \<and> \<not> is_package spec) then [m] else [], Exhausted) #
           map (\<lambda>child.
                  if child_ispkg child then
                    recurse_modules d h (m @ ''.'' @ child_name child)
                      ignore_tests packages_only
                  else if \<not> packages_only then
                    ([m @ ''.'' @ child_name child], Exhausted)
                  else ([], Exhausted))
               (iter_modules h (dirname h og)))) = Exhausted"
        proof (rule chain_all_Exhausted, rule ballI)
          fix g
          assume "g \<in> set ((if \<not> (packages_only \<and> \<not> is_package spec) then [m] else [], Exhausted) #
           map (\<lambda>child.
                  if child_ispkg child then
                    recurse_modules d h (m @ ''.'' @ child_name child)
                      ignore_tests packages_only
                  else if \<not> packages_only then
                    ([m @ ''.'' @ child_name child], Exhausted)
                  else ([], Exhausted))
               (iter_modules h (dirname h og)))"
          then consider "snd g = Exhausted"
            | child where "child \<in> set (iter_modules h (dirname h og))" "child_ispkg child"
                "g = recurse_modules d h (m @ ''.'' @ child_name child) ignore_tests packages_only"
            by (auto split: if_splits)
          then show "snd g = Exhausted"
          proof cases
            case 1
            then show ?thesis .
          next
            case 2
            have spec: "find_spec h m = Inr (Some spec)"
              using found Some by simp
            have "\<And>n. pkg_path h ignore_tests (m @ ''.'' @ child_name child) n \<Longrightarrow>
                    \<exists>found. find_spec h n = Inr found"
              using step.prems pkg_path.below [OF False spec origin 2(1,2)] by blast
            with step.IH [OF spec origin 2(1,2)] 2(3) show ?thesis by simp
          qed
        qed
        with found Some origin False show ?thesis by simp
      qed
    qed
  qed
qed

lemma tree_path: "pkg_path package_tree_host False ''pkg'' ''pkg.sub.deep''"
proof -
  have deep: "pkg_path package_tree_host False ''pkg.sub.deep'' ''pkg.sub.deep''"
    by (rule pkg_path.here) simp
  have "pkg_path package_tree_host False
          (''pkg.sub'' @ ''.'' @ child_name \<lparr>child_name = ''deep'', child_ispkg = True\<rparr>)
          ''pkg.sub.deep''"
    using deep by simp
  then have sub: "pkg_path package_tree_host False ''pkg.sub'' ''pkg.sub.deep''"
    by (rule pkg_path.below [where spec = "\<lparr>origin = Some ''/src/pkg/sub/__init__.py''\<rparr>"
          and og = "''/src/pkg/sub/__init__.py''", rotated 5])
       (simp_all add: package_tree_host_def)
  have "pkg_path package_tree_host False
          (''pkg'' @ ''.'' @ child_name \<lparr>child_name = ''sub'', child_ispkg = True\<rparr>)
          ''pkg.sub.deep''"
    using sub by simp
  then show ?thesis
    by (rule pkg_path.below [where spec = "\<lparr>origin = Some ''/src/pkg/__init__.py''\<rparr>"
          and og = "''/src/pkg/__init__.py''", rotated 5])
       (simp_all add: package_tree_host_def)
qed

lemma tree_depth: "bounded_depth package_tree_host ''pkg'' 3"
proof -
  have deep: "bounded_depth package_tree_host ''pkg.sub.deep'' (Suc 0)"
    by (rule bounded_depth.step) (auto simp: package_tree_host_def split: if_splits)
  have sub: "bounded_depth package_tree_host ''pkg.sub'' (Suc (Suc 0))"
    by (rule bounded_depth.step) (use deep in \<open>auto simp: package_tree_host_def split: if_splits\<close>)
  have "bounded_depth package_tree_host ''pkg'' (Suc (Suc (Suc 0)))"
    by (rule bounded_depth.step) (use sub in \<open>auto simp: package_tree_host_def split: if_splits\<close>)
  then show ?thesis by (simp add: numeral_3_eq_3)
qed

section \<open>Wildcard aliases that the lookup reports absent\<close>

text \<open>
  Where \<^verbatim>\<open>hasattr(module, "*")\<close> is false, wildcard aliases are skipped: the visit does
  what it does on the statement without them.
\<close>

theorem wildcard_skipped_when_absent:
  assumes "resolve_module_to_import c node = Inr mti"
    and "import_module h mti = Inr loaded"
    and "hasattr loaded ''*'' = Inr False"
  shows "visit_ImportFrom h c node =
           visit_ImportFrom h c
             (node\<lparr>node_names := filter (\<lambda>a. alias_name a \<noteq> ''*'') (node_names node)\<rparr>)"
  using assms visit_names_without_wildcards [OF assms(3), of h c mti "node_names node"]
  by (simp add: visit_ImportFrom_def resolve_ignores_names)

theorem wildcard_skipped_when_absent_witness:
  "visit_ImportFrom example_host (example_checker None)
       (import_names 0 (Some ''pkg.mod'') [''*''])
     = \<lparr>outcome = Returned, warnings = [], imported = [''pkg.mod'']\<rparr>"
proof -
  have "visit_ImportFrom example_host (example_checker None)
          (import_names 0 (Some ''pkg.mod'') [''*'']) =
        visit_ImportFrom example_host (example_checker None)
          ((import_names 0 (Some ''pkg.mod'') [''*''])
             \<lparr>node_names := filter (\<lambda>a. alias_name a \<noteq> ''*'')
                (node_names (import_names 0 (Some ''pkg.mod'') [''*'']))\<rparr>)"
    by (rule wildcard_skipped_when_absent
          [of _ _ "''pkg.mod''" _ "module_object [(''Klass'', class_defined_in ''pkg.mod'')]"])
       (simp_all add: import_names_def example_host_def resolve_module_to_import_def
          hasattr_def module_object_def)
  then show ?thesis
    by (simp add: import_names_def example_host_def example_checker_def
        resolve_module_to_import_def visit_ImportFrom_def startswith_def and_then_def
        importing_def finished_def)
qed

section \<open>Claims\<close>

text \<open>
  C1. With \<^verbatim>\<open>ignore_tests\<close> set, no module whose second dotted component is \<^verbatim>\<open>tests\<close> is
  yielded from a root that is its ancestor. The code yields one: a child that is not a
  package is yielded without the test that the recursion applies to a package child. Here
  the package \<^verbatim>\<open>pkg\<close> holds the plain module \<^verbatim>\<open>tests.py\<close>, and \<^verbatim>\<open>pkg.tests\<close> is yielded.
\<close>

theorem tests_file_is_yielded:
  "is_test_module ''pkg.tests''
   \<and> recurse_modules 3 package_tree_host ''pkg'' True False =
       ([''pkg'', ''pkg.mod'', ''pkg.tests'', ''pkg.sub'', ''pkg.sub.leaf'', ''pkg.sub.deep''],
        Exhausted)"
  by (simp add: package_tree_host_def numeral_3_eq_3 is_test_module_def)

text \<open>
  C2. For every defining-module name and every working module,
  \<^verbatim>\<open>_get_module_should_import\<close> returns exactly the dotted join of the components
  accumulated left to right, stopping before the first component that starts with an
  underscore while the working module does not start with the dotted join of the
  components accumulated so far.
\<close>

theorem get_module_should_import_refines_spec:
  "get_module_should_import working defining = canonical_path_spec working defining"
  by (simp add: get_module_should_import_def canonical_path_spec_def
      should_import_loop_first_stop)




text \<open>
  C4. For every import statement whose relative level is 2 or more, the visit raises the
  policy violation (\<^verbatim>\<open>ValueError\<close>) whatever its source-module string and alias list are,
  and before any module is resolved or loaded: nothing was imported and nothing warned.
\<close>

theorem relative_level_two_raises:
  "2 \<le> node_level node \<Longrightarrow>
   visit_ImportFrom h c node = \<lparr>outcome = Raised ValueError, warnings = [], imported = []\<rparr>"
  by (simp add: visit_ImportFrom_def raised_def)

theorem relative_level_two_raises_witness:
  "visit_ImportFrom example_host (example_checker None) (import_names 3 (Some ''sibling'') [''X''])
     = \<lparr>outcome = Raised ValueError, warnings = [], imported = []\<rparr>"
  using relative_level_two_raises
    [of "import_names 3 (Some ''sibling'') [''X'']" example_host "example_checker None"]
  by (simp add: import_names_def)

text \<open>
  C5. When loading the resolved module-to-import fails with \<^verbatim>\<open>ModuleNotFoundError\<close>, the
  visit returns without error, skipping the whole statement, if and only if some entry of
  the ignore-list is a string prefix of the resolved module name; with no matching entry,
  or no ignore-list, the same exception is re-raised.
\<close>

theorem module_not_found_skipped_iff_ignored:
  assumes "node_level node < 2"
    and "resolve_module_to_import c node = Inr mti"
    and "startswith mti (top_level_module c)"
    and "import_module h mti = Inl (ModuleNotFoundError missing)"
  shows "visit_ImportFrom h c node =
           \<lparr>outcome =
              (if \<exists>ignore_list. module_list_to_ignore_not_found c = Some ignore_list \<and>
                    (\<exists>entry \<in> set ignore_list. prefix entry mti)
               then Returned else Raised (ModuleNotFoundError missing)),
            warnings = [], imported = [mti]\<rparr>"
  using assms
  by (auto simp: visit_ImportFrom_def importing_def ignore_not_found_iff split: option.splits)

theorem module_not_found_skipped_iff_ignored_witness:
  "visit_ImportFrom example_host (example_checker (Some [''pkg.optional'']))
       (import_names 0 (Some ''pkg.optional.extra'') [''X''])
     = \<lparr>outcome = Returned, warnings = [], imported = [''pkg.optional.extra'']\<rparr>
   \<and> visit_ImportFrom example_host (example_checker None)
       (import_names 0 (Some ''pkg.optional.extra'') [''X''])
     = \<lparr>outcome = Raised (ModuleNotFoundError ''pkg.optional.extra''), warnings = [],
        imported = [''pkg.optional.extra'']\<rparr>"
  using module_not_found_skipped_iff_ignored
    [of "import_names 0 (Some ''pkg.optional.extra'') [''X'']"
        "example_checker (Some [''pkg.optional''])" "''pkg.optional.extra''" example_host
        "''pkg.optional.extra''"]
    module_not_found_skipped_iff_ignored
    [of "import_names 0 (Some ''pkg.optional.extra'') [''X'']"
        "example_checker None" "''pkg.optional.extra''" example_host
        "''pkg.optional.extra''"]
  by (simp add: import_names_def example_checker_def example_host_def
      resolve_module_to_import_def startswith_def)

text \<open>
  C6. A wildcard alias is to be skipped always: it causes no attribute-lookup failure and
  no warning. The code tests \<^verbatim>\<open>hasattr\<close> before it looks for the wildcard, so the skip
  is reached only when the lookup of \<^verbatim>\<open>*\<close> reports it absent. A module with an attribute
  named \<^verbatim>\<open>*\<close> has it checked like any other name and draws a warning; a module whose
  attribute lookup raises something other than \<^verbatim>\<open>AttributeError\<close> makes the visit raise
  on the wildcard.
\<close>

theorem wildcard_not_always_skipped:
  "visit_ImportFrom example_host (example_checker None)
       (import_names 0 (Some ''pkg.star'') [''*''])
     = \<lparr>outcome = Returned, warnings = [(''*'', ''pkg.star'', ''pkg.other'')],
        imported = [''pkg.star'']\<rparr>
   \<and> visit_ImportFrom example_host (example_checker None)
       (import_names 0 (Some ''pkg.lazy'') [''*''])
     = \<lparr>outcome = Raised (ModuleNotFoundError ''pkg.lazy.*''), warnings = [],
        imported = [''pkg.lazy'']\<rparr>"
  by (simp add: import_names_def example_host_def example_checker_def
      resolve_module_to_import_def visit_ImportFrom_def startswith_def and_then_def
      importing_def finished_def raised_def visit_alias_def hasattr_def module_object_def
      class_defined_in_def check_provenance_def get_module_should_import_def)

text \<open>
  C7. With \<^verbatim>\<open>packages_only\<close> set, every name yielded resolves to a spec that is a
  package and lies on a package-to-package path from the root. Where the package tree
  below the root is no deeper than the fuel, the run does not run out of fuel; it ends
  normally when \<^verbatim>\<open>find_spec\<close> raises on no module of such a path; and a run that ends
  normally has yielded every package on such a path, so non-package siblings hide
  nothing. With \<^verbatim>\<open>ignore_tests\<close> unset the paths are all package-to-package paths.
\<close>

theorem packages_only_yields_reachable_packages:
  "(\<forall>n \<in> set (fst (recurse_modules fuel h root ignore_tests True)).
      (\<exists>spec. find_spec h n = Inr (Some spec) \<and> is_package spec) \<and>
      pkg_path h ignore_tests root n)
   \<and> (bounded_depth h root fuel \<longrightarrow>
        snd (recurse_modules fuel h root ignore_tests True) \<noteq> OutOfFuel
        \<and> ((\<forall>m. pkg_path h ignore_tests root m \<longrightarrow> (\<exists>found. find_spec h m = Inr found)) \<longrightarrow>
             snd (recurse_modules fuel h root ignore_tests True) = Exhausted)
        \<and> (snd (recurse_modules fuel h root ignore_tests True) = Exhausted \<longrightarrow>
             (\<forall>n spec. pkg_path h ignore_tests root n \<longrightarrow>
                find_spec h n = Inr (Some spec) \<longrightarrow> is_package spec \<longrightarrow>
                n \<in> set (fst (recurse_modules fuel h root ignore_tests True)))))"
proof (intro conjI ballI impI allI)
  fix n
  assume "n \<in> set (fst (recurse_modules fuel h root ignore_tests True))"
  then show "\<exists>spec. find_spec h n = Inr (Some spec) \<and> is_package spec"
    and "pkg_path h ignore_tests root n"
    using packages_only_yields_packages by blast+
next
  assume "bounded_depth h root fuel"
  then show "snd (recurse_modules fuel h root ignore_tests True) \<noteq> OutOfFuel"
    by (rule recurse_modules_enough_fuel)
next
  assume depth: "bounded_depth h root fuel"
    and resolves: "\<forall>m. pkg_path h ignore_tests root m \<longrightarrow> (\<exists>found. find_spec h m = Inr found)"
  show "snd (recurse_modules fuel h root ignore_tests True) = Exhausted"
    using depth
  proof (rule recurse_modules_ends_normally)
    fix n
    assume "pkg_path h ignore_tests root n"
    with resolves show "\<exists>found. find_spec h n = Inr found" by blast
  qed
next
  fix n spec
  assume "snd (recurse_modules fuel h root ignore_tests True) = Exhausted"
    and "pkg_path h ignore_tests root n" and "find_spec h n = Inr (Some spec)"
    and "is_package spec"
  then show "n \<in> set (fst (recurse_modules fuel h root ignore_tests True))"
    using packages_only_yields_every_package by blast
qed

theorem packages_only_yields_reachable_packages_witness:
  "bounded_depth package_tree_host ''pkg'' 3
   \<and> pkg_path package_tree_host False ''pkg'' ''pkg.sub.deep''
   \<and> snd (recurse_modules 3 package_tree_host ''pkg'' False True) = Exhausted
   \<and> ''pkg.sub.deep'' \<in> set (fst (recurse_modules 3 package_tree_host ''pkg'' False True))
   \<and> recurse_modules 3 package_tree_host ''pkg'' False True =
       ([''pkg'', ''pkg.sub'', ''pkg.sub.deep''], Exhausted)"
proof -
  have run: "recurse_modules 3 package_tree_host ''pkg'' False True =
     ([''pkg'', ''pkg.sub'', ''pkg.sub.deep''], Exhausted)"
    by (simp add: package_tree_host_def numeral_3_eq_3 is_package_def
        endswith_def suffix_to_prefix)
  have spec: "find_spec package_tree_host ''pkg.sub.deep'' =
                Inr (Some \<lparr>origin = Some ''/src/pkg/sub/deep/__init__.py''\<rparr>)"
    by (simp add: package_tree_host_def)
  have pkg: "is_package \<lparr>origin = Some ''/src/pkg/sub/deep/__init__.py''\<rparr>"
    by (simp add: is_package_def endswith_def suffix_to_prefix)
  have resolves: "\<forall>m. pkg_path package_tree_host False ''pkg'' m \<longrightarrow>
                    (\<exists>found. find_spec package_tree_host m = Inr found)"
    by (simp add: package_tree_host_def)
  note inst = packages_only_yields_reachable_packages [of 3 package_tree_host "''pkg''" False]
  from inst tree_depth resolves
  have ended: "snd (recurse_modules 3 package_tree_host ''pkg'' False True) = Exhausted"
    by blast
  from inst tree_depth ended tree_path spec pkg
  have "''pkg.sub.deep'' \<in> set (fst (recurse_modules 3 package_tree_host ''pkg'' False True))"
    by blast
  with run tree_path tree_depth ended show ?thesis by simp
qed



text \<open>
  C9. The scope filter compares by raw string prefix: a statement whose resolved
  module-to-import begins with the top-level module name as a character prefix, but is
  neither that module nor a dotted descendant of it, is not skipped; the checker goes on
  to load that module.
\<close>

theorem scope_filter_is_raw_prefix:
  assumes "node_level node < 2"
    and "resolve_module_to_import c node = Inr mti"
    and "prefix (top_level_module c) mti"
    and "mti \<noteq> top_level_module c"
    and "\<not> prefix (top_level_module c @ ''.'') mti"
  shows "\<exists>rest. imported (visit_ImportFrom h c node) = mti # rest"
  using assms visit_imports_first [of node c mti h] by (simp add: startswith_def)

theorem scope_filter_is_raw_prefix_witness:
  "prefix ''pkg'' ''pkgextra.mod'' \<and> \<not> prefix ''pkg.'' ''pkgextra.mod''
   \<and> imported (visit_ImportFrom example_host (example_checker None)
       (import_names 0 (Some ''pkgextra.mod'') [''X''])) = [''pkgextra.mod'', ''pkgextra.mod.X'']"
  using scope_filter_is_raw_prefix
    [of "import_names 0 (Some ''pkgextra.mod'') [''X'']" "example_checker None"
        "''pkgextra.mod''" example_host]
  by (simp add: import_names_def example_checker_def example_host_def
      resolve_module_to_import_def startswith_def visit_ImportFrom_def and_then_def
      importing_def visit_alias_def hasattr_def module_object_def finished_def)

text \<open>
  C10. A checker constructed for a dot-free module name that is not a package has the
  empty string as working module and as top-level module, and its scope filter admits
  every import statement: whatever module the statement resolves to is loaded.
\<close>

theorem dot_free_non_package_admits_every_import:
  assumes "CHR ''.'' \<notin> set module_arg"
    and "find_spec h module_arg = Inr found"
    and "case found of None \<Rightarrow> True | Some spec \<Rightarrow> \<not> is_package spec"
  shows "init_checker h module_arg ignore_list =
           Inr \<lparr>self_module = [], top_level_module = [],
                module_list_to_ignore_not_found = ignore_list\<rparr>
         \<and> (\<forall>node mti. node_level node < 2 \<longrightarrow>
               resolve_module_to_import
                 \<lparr>self_module = [], top_level_module = [],
                  module_list_to_ignore_not_found = ignore_list\<rparr> node = Inr mti \<longrightarrow>
               (\<exists>rest. imported (visit_ImportFrom h
                   \<lparr>self_module = [], top_level_module = [],
                    module_list_to_ignore_not_found = ignore_list\<rparr> node) = mti # rest))"
proof
  have "split_dot module_arg = [module_arg]"
    using assms(1) by (rule split_dot_single)
  then show "init_checker h module_arg ignore_list =
           Inr \<lparr>self_module = [], top_level_module = [],
                module_list_to_ignore_not_found = ignore_list\<rparr>"
    using assms(2,3)
    by (auto simp: init_checker_def is_package_def split: option.splits)
next
  show "\<forall>node mti. node_level node < 2 \<longrightarrow>
               resolve_module_to_import
                 \<lparr>self_module = [], top_level_module = [],
                  module_list_to_ignore_not_found = ignore_list\<rparr> node = Inr mti \<longrightarrow>
               (\<exists>rest. imported (visit_ImportFrom h
                   \<lparr>self_module = [], top_level_module = [],
                    module_list_to_ignore_not_found = ignore_list\<rparr> node) = mti # rest)"
    by (intro allI impI visit_imports_first) (simp_all add: startswith_def)
qed

theorem dot_free_non_package_admits_every_import_witness:
  "init_checker example_host ''tool'' None =
     Inr \<lparr>self_module = [], top_level_module = [], module_list_to_ignore_not_found = None\<rparr>
   \<and> visit_ImportFrom example_host
        \<lparr>self_module = [], top_level_module = [], module_list_to_ignore_not_found = None\<rparr>
        (import_names 0 (Some ''os.path'') [''join''])
      = \<lparr>outcome = Returned, warnings = [(''join'', ''os.path'', ''posixpath'')],
         imported = [''os.path'']\<rparr>"
proof -
  have spec: "find_spec example_host ''tool'' = Inr (Some \<lparr>origin = Some ''/src/tool.py''\<rparr>)"
    by (simp add: example_host_def)
  have nonpkg: "case Some \<lparr>origin = Some ''/src/tool.py''\<rparr> of
                  None \<Rightarrow> True | Some spec \<Rightarrow> \<not> is_package spec"
    by (simp add: is_package_def endswith_def suffix_to_prefix)
  have dotfree: "CHR ''.'' \<notin> set ''tool''"
    by simp
  note inst = dot_free_non_package_admits_every_import [OF dotfree spec nonpkg, of None]
  have run: "visit_ImportFrom example_host
        \<lparr>self_module = [], top_level_module = [], module_list_to_ignore_not_found = None\<rparr>
        (import_names 0 (Some ''os.path'') [''join''])
      = \<lparr>outcome = Returned, warnings = [(''join'', ''os.path'', ''posixpath'')],
         imported = [''os.path'']\<rparr>"
    by (simp add: import_names_def example_host_def resolve_module_to_import_def
        startswith_def visit_ImportFrom_def and_then_def importing_def visit_alias_def
        hasattr_def module_object_def finished_def check_provenance_def
        get_module_should_import_def no_attrs_def)
  from inst run show ?thesis by simp
qed

end
